theory Spec2Isabelle
  imports Main "HOL-Library.Word"
begin

section \<open>The AiRoyalties_FHE contract\<close>

text \<open>
  A shallow embedding of the Solidity contract \<^verbatim>\<open>AiRoyalties_FHE\<close> (pragma
  \<^verbatim>\<open>^0.8.24\<close>, so \<open>+\<close> and \<open>*\<close> are checked and revert on overflow).
  Unsigned integers are words of their width, a \<^verbatim>\<open>mapping\<close> is a map that
  is read with Solidity's default value where nothing was written, a \<^verbatim>\<open>require\<close>
  or a panic is an error value, and every external function takes the contract state and
  returns either an error (the transaction reverts) or the state after the call.
\<close>

subsection \<open>Value types\<close>

type_synonym uint32 = "32 word"
type_synonym uint256 = "256 word"
type_synonym bytes32 = "256 word"
type_synonym bytes = "8 word list"

text \<open>
  The ciphertext types of the FHE library are opaque handles. The model keeps the
  plaintext a handle stands for, which is what the decryption oracle reveals;
  \<^verbatim>\<open>FHE.asEuint32\<close> and \<^verbatim>\<open>FHE.asEbool\<close> are the constructors.
\<close>

datatype euint32 = Euint32 uint32
datatype ebool = Ebool bool

definition FHE_asEuint32 :: "uint32 \<Rightarrow> euint32" where
  "FHE_asEuint32 v = Euint32 v"

definition FHE_asEbool :: "bool \<Rightarrow> ebool" where
  "FHE_asEbool b = Ebool b"

fun FHE_decrypt :: "ebool \<Rightarrow> bool" where
  "FHE_decrypt (Ebool b) = b"

fun FHE_reveal :: "euint32 \<Rightarrow> uint32" where
  "FHE_reveal (Euint32 v) = v"

text \<open>The reasons a call reverts: the three \<^verbatim>\<open>require\<close> messages, the
  overflow panic of checked arithmetic, and the reverts of \<^verbatim>\<open>FHE.checkSignatures\<close>
  and \<^verbatim>\<open>abi.decode\<close>.\<close>

datatype error =
    InvalidRequest
  | AlreadyProcessed
  | AlreadyClaimed
  | ArithmeticOverflow
  | InvalidSignatures
  | DecodeFailure

subsection \<open>Checked arithmetic\<close>

definition checked_add :: "'a::len word \<Rightarrow> 'a word \<Rightarrow> error + 'a word" where
  "checked_add a b =
     (if unat a + unat b < 2 ^ LENGTH('a) then Inr (a + b) else Inl ArithmeticOverflow)"

definition checked_mul :: "'a::len word \<Rightarrow> 'a word \<Rightarrow> error + 'a word" where
  "checked_mul a b =
     (if unat a * unat b < 2 ^ LENGTH('a) then Inr (a * b) else Inl ArithmeticOverflow)"

text \<open>
  \<^verbatim>\<open>return (computeHours * 40 + dataQuality * 35 + modelImpact * 25) / 100;\<close>
  with every operand a \<^verbatim>\<open>uint32\<close>.
\<close>

definition calculateSharePercentage :: "uint32 \<Rightarrow> uint32 \<Rightarrow> uint32 \<Rightarrow> error + uint32" where
  "calculateSharePercentage computeHours dataQuality modelImpact =
     (case checked_mul computeHours 40 of Inl e \<Rightarrow> Inl e | Inr ch \<Rightarrow>
     (case checked_mul dataQuality 35 of Inl e \<Rightarrow> Inl e | Inr dq \<Rightarrow>
     (case checked_add ch dq of Inl e \<Rightarrow> Inl e | Inr chdq \<Rightarrow>
     (case checked_mul modelImpact 25 of Inl e \<Rightarrow> Inl e | Inr mi \<Rightarrow>
     (case checked_add chdq mi of Inl e \<Rightarrow> Inl e | Inr weighted \<Rightarrow>
      Inr (weighted div 100))))))"

subsection \<open>Decoding the oracle's cleartexts\<close>

text \<open>
  \<^verbatim>\<open>abi.decode\<close> reads one 32-byte big-endian word per value. It reverts when
  the data is shorter than the values need and when a word does not fit the
  \<^verbatim>\<open>uint32\<close> it is decoded into.
\<close>

definition be_nat :: "bytes \<Rightarrow> nat" where
  "be_nat bs = foldl (\<lambda>acc b. acc * 256 + unat b) 0 bs"

definition abi_word :: "bytes \<Rightarrow> nat \<Rightarrow> nat" where
  "abi_word data i = be_nat (take 32 (drop (32 * i) data))"

definition abi_uint32 :: "bytes \<Rightarrow> nat \<Rightarrow> error + uint32" where
  "abi_uint32 data i =
     (if abi_word data i < 2 ^ 32 then Inr (of_nat (abi_word data i)) else Inl DecodeFailure)"

definition abi_decode_uint32 :: "bytes \<Rightarrow> error + uint32" where
  "abi_decode_uint32 data =
     (if length data < 32 then Inl DecodeFailure else abi_uint32 data 0)"

definition abi_decode_uint32x3 :: "bytes \<Rightarrow> error + uint32 \<times> uint32 \<times> uint32" where
  "abi_decode_uint32x3 data =
     (if length data < 96 then Inl DecodeFailure else
     (case abi_uint32 data 0 of Inl e \<Rightarrow> Inl e | Inr a \<Rightarrow>
     (case abi_uint32 data 1 of Inl e \<Rightarrow> Inl e | Inr b \<Rightarrow>
     (case abi_uint32 data 2 of Inl e \<Rightarrow> Inl e | Inr c \<Rightarrow>
      Inr (a, b, c)))))"

text \<open>The encoding the oracle sends for a \<^verbatim>\<open>uint32\<close>: 28 zero bytes, then the
  value's four bytes, most significant first.\<close>

definition abi_encode_uint32 :: "uint32 \<Rightarrow> bytes" where
  "abi_encode_uint32 v =
     replicate 28 0 @
     [of_nat (unat v div 2 ^ 24 mod 256), of_nat (unat v div 2 ^ 16 mod 256),
      of_nat (unat v div 2 ^ 8 mod 256), of_nat (unat v mod 256)]"

subsection \<open>Storage\<close>

record EncryptedContribution =
  id_c :: uint256
  encryptedComputeHours :: euint32
  encryptedDataQuality :: euint32
  encryptedModelImpact :: euint32
  timestamp :: uint256
  contributorHash :: bytes32

record RoyaltyDistribution =
  encryptedShare :: euint32
  encryptedPaymentAmount :: euint32
  isClaimed :: ebool

record DecryptedRoyalty =
  sharePercentage :: uint32
  paymentAmount :: uint256
  isRevealed :: bool

datatype event =
    ContributionRecorded uint256 bytes32 uint256
  | RoyaltyCalculationRequested uint256
  | RoyaltyDecrypted uint256
  | RewardPoolDeposited uint256

datatype selector = processRoyaltyCalculation_selector | processRoyaltyPayment_selector

text \<open>
  The state variables of the contract, the log of emitted events (oldest first), and the
  decryption requests handed to the oracle by \<^verbatim>\<open>FHE.requestDecryption\<close>
  (oldest first): the request id the oracle chose, the ciphertexts, and the callback.
\<close>

record state =
  contributionCount :: uint256
  totalRewardPool :: uint256
  contributions :: "uint256 \<rightharpoonup> EncryptedContribution"
  royaltyDistributions :: "bytes32 \<rightharpoonup> RoyaltyDistribution"
  decryptedRoyalties :: "uint256 \<rightharpoonup> DecryptedRoyalty"
  requestToContributionId :: "uint256 \<rightharpoonup> uint256"
  requestToContributorHash :: "uint256 \<rightharpoonup> bytes32"
  events :: "event list"
  decryptionRequests :: "(uint256 \<times> euint32 list \<times> selector) list"

definition init_state :: state where
  "init_state =
     \<lparr>contributionCount = 0, totalRewardPool = 0, contributions = Map.empty,
      royaltyDistributions = Map.empty, decryptedRoyalties = Map.empty,
      requestToContributionId = Map.empty, requestToContributorHash = Map.empty,
      events = [], decryptionRequests = []\<rparr>"

text \<open>Reading a mapping where nothing was written gives the zero value of its type;
  the zero ciphertext handle stands for the plaintext zero.\<close>

definition zero_contribution :: EncryptedContribution where
  "zero_contribution =
     \<lparr>id_c = 0, encryptedComputeHours = Euint32 0, encryptedDataQuality = Euint32 0,
      encryptedModelImpact = Euint32 0, timestamp = 0, contributorHash = 0\<rparr>"

definition zero_distribution :: RoyaltyDistribution where
  "zero_distribution =
     \<lparr>encryptedShare = Euint32 0, encryptedPaymentAmount = Euint32 0, isClaimed = Ebool False\<rparr>"

definition zero_royalty :: DecryptedRoyalty where
  "zero_royalty = \<lparr>sharePercentage = 0, paymentAmount = 0, isRevealed = False\<rparr>"

definition contribution_at :: "state \<Rightarrow> uint256 \<Rightarrow> EncryptedContribution" where
  "contribution_at s i = (case contributions s i of None \<Rightarrow> zero_contribution | Some c \<Rightarrow> c)"

definition distribution_at :: "state \<Rightarrow> bytes32 \<Rightarrow> RoyaltyDistribution" where
  "distribution_at s k = (case royaltyDistributions s k of None \<Rightarrow> zero_distribution | Some d \<Rightarrow> d)"

definition royalty_at :: "state \<Rightarrow> uint256 \<Rightarrow> DecryptedRoyalty" where
  "royalty_at s i = (case decryptedRoyalties s i of None \<Rightarrow> zero_royalty | Some r \<Rightarrow> r)"

definition contributionId_at :: "state \<Rightarrow> uint256 \<Rightarrow> uint256" where
  "contributionId_at s r = (case requestToContributionId s r of None \<Rightarrow> 0 | Some i \<Rightarrow> i)"

definition contributorHash_at :: "state \<Rightarrow> uint256 \<Rightarrow> bytes32" where
  "contributorHash_at s r = (case requestToContributorHash s r of None \<Rightarrow> 0 | Some k \<Rightarrow> k)"

subsection \<open>The external functions\<close>

text \<open>The modifier \<^verbatim>\<open>onlyAuthorized\<close> has the body \<^verbatim>\<open>_;\<close> and checks
  nothing, so it does not appear below.\<close>

text \<open>\<^verbatim>\<open>depositRewardPool\<close>; the argument is \<^verbatim>\<open>msg.value\<close>.\<close>

definition depositRewardPool :: "uint256 \<Rightarrow> state \<Rightarrow> error + state" where
  "depositRewardPool msg_value s =
     (case checked_add (totalRewardPool s) msg_value of Inl e \<Rightarrow> Inl e | Inr pool \<Rightarrow>
      Inr (s\<lparr>totalRewardPool := pool, events := events s @ [RewardPoolDeposited msg_value]\<rparr>))"

text \<open>\<^verbatim>\<open>submitEncryptedContribution\<close>; the last argument is
  \<^verbatim>\<open>block.timestamp\<close>.\<close>

definition submitEncryptedContribution ::
  "euint32 \<Rightarrow> euint32 \<Rightarrow> euint32 \<Rightarrow> bytes32 \<Rightarrow> uint256 \<Rightarrow> state \<Rightarrow> error + state" where
  "submitEncryptedContribution computeHours dataQuality modelImpact cHash block_timestamp s =
     (case checked_add (contributionCount s) 1 of Inl e \<Rightarrow> Inl e | Inr newId \<Rightarrow>
      Inr (s\<lparr>contributionCount := newId,
             contributions := (contributions s)(newId \<mapsto>
               \<lparr>id_c = newId, encryptedComputeHours = computeHours,
                encryptedDataQuality = dataQuality, encryptedModelImpact = modelImpact,
                timestamp = block_timestamp, contributorHash = cHash\<rparr>),
             events := events s @ [ContributionRecorded newId cHash block_timestamp]\<rparr>))"

text \<open>\<^verbatim>\<open>calculateRoyaltyShare\<close>; \<open>reqId\<close> is the request id that
  \<^verbatim>\<open>FHE.requestDecryption\<close> returns.\<close>

definition calculateRoyaltyShare :: "uint256 \<Rightarrow> uint256 \<Rightarrow> state \<Rightarrow> error + state" where
  "calculateRoyaltyShare contributionId reqId s =
     (let contrib = contribution_at s contributionId;
          ciphertexts = [encryptedComputeHours contrib, encryptedDataQuality contrib,
                         encryptedModelImpact contrib]
      in Inr (s\<lparr>decryptionRequests :=
                  decryptionRequests s @ [(reqId, ciphertexts, processRoyaltyCalculation_selector)],
                requestToContributionId := (requestToContributionId s)(reqId \<mapsto> contributionId),
                events := events s @ [RoyaltyCalculationRequested contributionId]\<rparr>))"

text \<open>\<^verbatim>\<open>processRoyaltyCalculation\<close>; \<open>checkSignatures\<close> tells whether
  \<^verbatim>\<open>FHE.checkSignatures\<close> accepts the proof, and it reverts otherwise. The second
  \<^verbatim>\<open>require\<close> negates the stored \<^verbatim>\<open>isClaimed\<close> flag; the model reads
  the flag's plaintext there, as \<^verbatim>\<open>FHE.decrypt\<close> does in the two functions of the
  claim path.\<close>

definition processRoyaltyCalculation ::
  "(uint256 \<Rightarrow> bytes \<Rightarrow> bytes \<Rightarrow> bool) \<Rightarrow> uint256 \<Rightarrow> bytes \<Rightarrow> bytes \<Rightarrow> state \<Rightarrow> error + state" where
  "processRoyaltyCalculation checkSignatures requestId cleartexts prf s =
     (let contributionId = contributionId_at s requestId in
      if contributionId = 0 then Inl InvalidRequest else
      let contrib = contribution_at s contributionId in
      if FHE_decrypt (isClaimed (distribution_at s (contributorHash contrib)))
      then Inl AlreadyProcessed else
      if \<not> checkSignatures requestId cleartexts prf then Inl InvalidSignatures else
     (case abi_decode_uint32x3 cleartexts of Inl e \<Rightarrow> Inl e
      | Inr (computeHours, dataQuality, modelImpact) \<Rightarrow>
     (case calculateSharePercentage computeHours dataQuality modelImpact of Inl e \<Rightarrow> Inl e
      | Inr share \<Rightarrow>
     (case checked_mul (totalRewardPool s) (ucast share) of Inl e \<Rightarrow> Inl e
      | Inr scaled \<Rightarrow>
      let payment = scaled div 10000 in
      Inr (s\<lparr>royaltyDistributions := (royaltyDistributions s)(contributorHash contrib \<mapsto>
               \<lparr>encryptedShare = FHE_asEuint32 share,
                encryptedPaymentAmount = FHE_asEuint32 (ucast payment),
                isClaimed = FHE_asEbool False\<rparr>),
             decryptedRoyalties := (decryptedRoyalties s)(contributionId \<mapsto>
               \<lparr>sharePercentage = share, paymentAmount = payment, isRevealed = True\<rparr>),
             events := events s @ [RoyaltyDecrypted contributionId]\<rparr>)))))"

text \<open>\<^verbatim>\<open>claimRoyalty\<close>; \<open>reqId\<close> as in \<open>calculateRoyaltyShare\<close>.\<close>

definition claimRoyalty :: "bytes32 \<Rightarrow> uint256 \<Rightarrow> state \<Rightarrow> error + state" where
  "claimRoyalty cHash reqId s =
     (let dist = distribution_at s cHash in
      if FHE_decrypt (isClaimed dist) then Inl AlreadyClaimed else
      let ciphertexts = [encryptedPaymentAmount dist] in
      Inr (s\<lparr>decryptionRequests :=
               decryptionRequests s @ [(reqId, ciphertexts, processRoyaltyPayment_selector)],
             requestToContributorHash := (requestToContributorHash s)(reqId \<mapsto> cHash)\<rparr>))"

text \<open>\<^verbatim>\<open>processRoyaltyPayment\<close>; the decoded \<^verbatim>\<open>amount\<close> is not
  used after it is decoded, the transfer being left out of the contract.\<close>

definition processRoyaltyPayment ::
  "(uint256 \<Rightarrow> bytes \<Rightarrow> bytes \<Rightarrow> bool) \<Rightarrow> uint256 \<Rightarrow> bytes \<Rightarrow> bytes \<Rightarrow> state \<Rightarrow> error + state" where
  "processRoyaltyPayment checkSignatures requestId cleartexts prf s =
     (let cHash = contributorHash_at s requestId in
      if cHash = 0 then Inl InvalidRequest else
      let dist = distribution_at s cHash in
      if FHE_decrypt (isClaimed dist) then Inl AlreadyProcessed else
      if \<not> checkSignatures requestId cleartexts prf then Inl InvalidSignatures else
     (case abi_decode_uint32 cleartexts of Inl e \<Rightarrow> Inl e
      | Inr amount \<Rightarrow>
      Inr (s\<lparr>royaltyDistributions := (royaltyDistributions s)(cHash \<mapsto>
               dist\<lparr>isClaimed := FHE_asEbool True\<rparr>)\<rparr>)))"

text \<open>\<^verbatim>\<open>getDecryptedRoyalty\<close>, a view.\<close>

definition getDecryptedRoyalty :: "uint256 \<Rightarrow> state \<Rightarrow> uint32 \<times> uint256 \<times> bool" where
  "getDecryptedRoyalty contributionId s =
     (let r = royalty_at s contributionId
      in (sharePercentage r, paymentAmount r, isRevealed r))"

subsection \<open>Transactions\<close>

text \<open>
  A call of an external function with its arguments and the values the environment
  supplies: \<^verbatim>\<open>msg.value\<close>, \<^verbatim>\<open>block.timestamp\<close> and the request id
  chosen by the oracle.
\<close>

datatype call =
    DepositRewardPool uint256
  | SubmitEncryptedContribution euint32 euint32 euint32 bytes32 uint256
  | CalculateRoyaltyShare uint256 uint256
  | ProcessRoyaltyCalculation uint256 bytes bytes
  | ClaimRoyalty bytes32 uint256
  | ProcessRoyaltyPayment uint256 bytes bytes
  | GetDecryptedRoyalty uint256

text \<open>What the caller gets back: the revert reason, or the values the function's
  \<^verbatim>\<open>returns\<close> clause declares. Only \<^verbatim>\<open>getDecryptedRoyalty\<close> declares any.\<close>

datatype retval = Void | Royalty uint32 uint256 bool

datatype outcome = Reverted error | Returned retval

definition no_returns :: "error + state \<Rightarrow> state \<Rightarrow> outcome \<times> state" where
  "no_returns r s = (case r of Inl e \<Rightarrow> (Reverted e, s) | Inr s' \<Rightarrow> (Returned Void, s'))"

text \<open>A reverted transaction leaves the state as it was.\<close>

fun transact :: "(uint256 \<Rightarrow> bytes \<Rightarrow> bytes \<Rightarrow> bool) \<Rightarrow> call \<Rightarrow> state \<Rightarrow> outcome \<times> state" where
  "transact chk (DepositRewardPool v) s = no_returns (depositRewardPool v s) s"
| "transact chk (SubmitEncryptedContribution ch dq mi k ts) s =
     no_returns (submitEncryptedContribution ch dq mi k ts s) s"
| "transact chk (CalculateRoyaltyShare i r) s = no_returns (calculateRoyaltyShare i r s) s"
| "transact chk (ProcessRoyaltyCalculation r ct pf) s =
     no_returns (processRoyaltyCalculation chk r ct pf s) s"
| "transact chk (ClaimRoyalty k r) s = no_returns (claimRoyalty k r s) s"
| "transact chk (ProcessRoyaltyPayment r ct pf) s =
     no_returns (processRoyaltyPayment chk r ct pf s) s"
| "transact chk (GetDecryptedRoyalty i) s =
     (case getDecryptedRoyalty i s of (sh, amt, revealed) \<Rightarrow> (Returned (Royalty sh amt revealed), s))"

fun run :: "(uint256 \<Rightarrow> bytes \<Rightarrow> bytes \<Rightarrow> bool) \<Rightarrow> call list \<Rightarrow> state \<Rightarrow> state" where
  "run chk [] s = s"
| "run chk (c # cs) s = run chk cs (snd (transact chk c s))"

text \<open>The outcomes of a sequence of transactions, in order.\<close>

fun outcomes :: "(uint256 \<Rightarrow> bytes \<Rightarrow> bytes \<Rightarrow> bool) \<Rightarrow> call list \<Rightarrow> state \<Rightarrow> outcome list" where
  "outcomes chk [] s = []"
| "outcomes chk (c # cs) s = fst (transact chk c s) # outcomes chk cs (snd (transact chk c s))"

text \<open>The states the contract can be in: those a sequence of transactions leads to from
  the state at deployment.\<close>

inductive reachable :: "(uint256 \<Rightarrow> bytes \<Rightarrow> bytes \<Rightarrow> bool) \<Rightarrow> state \<Rightarrow> bool"
  for chk :: "uint256 \<Rightarrow> bytes \<Rightarrow> bytes \<Rightarrow> bool" where
  reachable_init: "reachable chk init_state"
| reachable_step: "reachable chk s \<Longrightarrow> reachable chk (snd (transact chk c s))"

text \<open>The amounts of the deposits that went through in a sequence of transactions.\<close>

fun deposited :: "(uint256 \<Rightarrow> bytes \<Rightarrow> bytes \<Rightarrow> bool) \<Rightarrow> call list \<Rightarrow> state \<Rightarrow> nat" where
  "deposited chk [] s = 0"
| "deposited chk (c # cs) s =
     (case (c, fst (transact chk c s)) of
        (DepositRewardPool v, Returned _) \<Rightarrow> unat v
      | _ \<Rightarrow> 0) + deposited chk cs (snd (transact chk c s))"

text \<open>The ids carried by the \<open>ContributionRecorded\<close> events of a log, in order.\<close>

fun recorded_ids :: "event list \<Rightarrow> uint256 list" where
  "recorded_ids [] = []"
| "recorded_ids (ContributionRecorded i k ts # es) = i # recorded_ids es"
| "recorded_ids (_ # es) = recorded_ids es"

subsection \<open>Auxiliary definitions\<close>

text \<open>The oracle's cleartexts for three metrics, a signature check that accepts every
  proof, and the weighted sum of \<open>calculateSharePercentage\<close> over the natural numbers.\<close>

definition abi_encode_uint32x3 :: "uint32 \<Rightarrow> uint32 \<Rightarrow> uint32 \<Rightarrow> bytes" where
  "abi_encode_uint32x3 a b c = abi_encode_uint32 a @ abi_encode_uint32 b @ abi_encode_uint32 c"

definition accept_all :: "uint256 \<Rightarrow> bytes \<Rightarrow> bytes \<Rightarrow> bool" where
  "accept_all r ct pf = True"

definition weighted_sum :: "uint32 \<Rightarrow> uint32 \<Rightarrow> uint32 \<Rightarrow> nat" where
  "weighted_sum computeHours dataQuality modelImpact =
     unat computeHours * 40 + unat dataQuality * 35 + unat modelImpact * 25"

subsection \<open>Example states\<close>

text \<open>One deposit, one contribution under the contributor hash 5, and a calculation
  request that the oracle numbered 7.\<close>

definition example_pending :: state where
  "example_pending =
     run accept_all
       [DepositRewardPool 1000,
        SubmitEncryptedContribution (Euint32 100) (Euint32 80) (Euint32 60) 5 1700000000,
        CalculateRoyaltyShare 1 7] init_state"

text \<open>The same with a pool of \<open>10000 * 2 ^ 32\<close> and metrics whose share is 1.\<close>

definition example_large_pool :: state where
  "example_large_pool =
     run accept_all
       [DepositRewardPool 42949672960000,
        SubmitEncryptedContribution (Euint32 3) (Euint32 0) (Euint32 0) 5 1700000000,
        CalculateRoyaltyShare 1 7] init_state"

text \<open>Three deposits around a calculation request and its callback.\<close>

definition example_interleaving :: "call list" where
  "example_interleaving =
     [DepositRewardPool 1000,
      SubmitEncryptedContribution (Euint32 100) (Euint32 80) (Euint32 60) 5 1700000000,
      CalculateRoyaltyShare 1 7,
      DepositRewardPool 500,
      ProcessRoyaltyCalculation 7 (abi_encode_uint32x3 100 80 60) [],
      DepositRewardPool 250]"

text \<open>The state after the callback for request 7, and the state after a claim of
  contributor hash 5 and its callback.\<close>

definition example_revealed :: state where
  "example_revealed =
     run accept_all [ProcessRoyaltyCalculation 7 (abi_encode_uint32x3 100 80 60) []]
       example_pending"

definition example_claimed :: state where
  "example_claimed =
     run accept_all [ClaimRoyalty 5 9, ProcessRoyaltyPayment 9 (abi_encode_uint32 8) []]
       example_revealed"


text \<open>A second contribution under the contributor hash 5, with its calculation request
  and callback.\<close>

definition example_second_contribution :: "call list" where
  "example_second_contribution =
     [SubmitEncryptedContribution (Euint32 0) (Euint32 0) (Euint32 0) 5 1700000100,
      CalculateRoyaltyShare 2 8,
      ProcessRoyaltyCalculation 8 (abi_encode_uint32x3 0 0 0) []]"



subsection \<open>The invariant of the contribution store\<close>

text \<open>The ids recorded in the event log are 1 up to the contribution count, in this order;
  contributions are stored under exactly these ids, each under its own.\<close>

definition submissions_sequential :: "state \<Rightarrow> bool" where
  "submissions_sequential s \<longleftrightarrow>
     map unat (recorded_ids (events s)) = [1..<Suc (unat (contributionCount s))]
     \<and> (\<forall>i. contributions s i \<noteq> None
            \<longleftrightarrow> 1 \<le> unat i \<and> unat i \<le> unat (contributionCount s))
     \<and> (\<forall>i c. contributions s i = Some c \<longrightarrow> id_c c = i)"

section \<open>Auxiliary facts\<close>

subsection \<open>Checked arithmetic\<close>

lemma unat_checked_mul:
  "unat a * unat b < 2 ^ LENGTH('a) \<Longrightarrow> unat (a * b) = unat a * unat b"
  for a :: "'a::len word"
  by (simp add: unat_mult_lem)

lemma unat_checked_add:
  "unat a + unat b < 2 ^ LENGTH('a) \<Longrightarrow> unat (a + b) = unat a + unat b"
  for a :: "'a::len word"
  by (simp add: unat_add_lem)

lemma checked_add_Inr:
  "checked_add a b = Inr c \<Longrightarrow> unat c = unat a + unat b"
  by (auto simp: checked_add_def unat_checked_add split: if_splits)

lemma checked_mul_Inr:
  "checked_mul a b = Inr c \<Longrightarrow> unat c = unat a * unat b"
  by (auto simp: checked_mul_def unat_checked_mul split: if_splits)

lemma calculateSharePercentage_fits:
  assumes "weighted_sum c d m < 2 ^ 32"
  shows "calculateSharePercentage c d m = Inr ((c * 40 + d * 35 + m * 25) div 100)"
    and "unat ((c * 40 + d * 35 + m * 25) div 100) = weighted_sum c d m div 100"
proof -
  from assms have a: "unat c * unat (40 :: uint32) < 2 ^ LENGTH(32)"
    and b: "unat d * unat (35 :: uint32) < 2 ^ LENGTH(32)"
    and m: "unat m * unat (25 :: uint32) < 2 ^ LENGTH(32)"
    by (simp_all add: weighted_sum_def)
  have ua: "unat (c * 40) = unat c * 40" using unat_checked_mul [OF a] by simp
  have ub: "unat (d * 35) = unat d * 35" using unat_checked_mul [OF b] by simp
  have um: "unat (m * 25) = unat m * 25" using unat_checked_mul [OF m] by simp
  from assms have ab: "unat (c * 40) + unat (d * 35) < 2 ^ LENGTH(32)"
    by (simp add: ua ub weighted_sum_def)
  have uab: "unat (c * 40 + d * 35) = unat c * 40 + unat d * 35"
    using unat_checked_add [OF ab] by (simp add: ua ub)
  from assms have abm: "unat (c * 40 + d * 35) + unat (m * 25) < 2 ^ LENGTH(32)"
    by (simp add: uab um weighted_sum_def)
  have uabm: "unat (c * 40 + d * 35 + m * 25) = weighted_sum c d m"
    using unat_checked_add [OF abm] by (simp add: uab um weighted_sum_def)
  show "calculateSharePercentage c d m = Inr ((c * 40 + d * 35 + m * 25) div 100)"
    using a b m ab abm by (simp add: calculateSharePercentage_def checked_mul_def checked_add_def)
  show "unat ((c * 40 + d * 35 + m * 25) div 100) = weighted_sum c d m div 100"
    by (simp add: unat_div uabm)
qed

lemma calculateSharePercentage_overflow:
  assumes "\<not> weighted_sum c d m < 2 ^ 32"
  shows "calculateSharePercentage c d m = Inl ArithmeticOverflow"
proof (cases "unat c * unat (40 :: uint32) < 2 ^ LENGTH(32)")
  case False
  then show ?thesis
    by (simp add: calculateSharePercentage_def checked_mul_def)
next
  case a: True
  have ua: "unat (c * 40) = unat c * 40" using unat_checked_mul [OF a] by simp
  show ?thesis
  proof (cases "unat d * unat (35 :: uint32) < 2 ^ LENGTH(32)")
    case False
    with a show ?thesis
      by (simp add: calculateSharePercentage_def checked_mul_def)
  next
    case b: True
    have ub: "unat (d * 35) = unat d * 35" using unat_checked_mul [OF b] by simp
    show ?thesis
    proof (cases "unat (c * 40) + unat (d * 35) < 2 ^ LENGTH(32)")
      case False
      with a b show ?thesis
        by (simp add: calculateSharePercentage_def checked_mul_def checked_add_def)
    next
      case ab: True
      have uab: "unat (c * 40 + d * 35) = unat c * 40 + unat d * 35"
        using unat_checked_add [OF ab] by (simp add: ua ub)
      show ?thesis
      proof (cases "unat m * unat (25 :: uint32) < 2 ^ LENGTH(32)")
        case False
        with a b ab show ?thesis
          by (simp add: calculateSharePercentage_def checked_mul_def checked_add_def)
      next
        case m: True
        have um: "unat (m * 25) = unat m * 25" using unat_checked_mul [OF m] by simp
        from assms have "\<not> unat (c * 40 + d * 35) + unat (m * 25) < 2 ^ LENGTH(32)"
          by (simp add: uab um weighted_sum_def)
        with a b ab m show ?thesis
          by (simp add: calculateSharePercentage_def checked_mul_def checked_add_def)
      qed
    qed
  qed
qed

lemma calculateSharePercentage_Inr:
  assumes "calculateSharePercentage c d m = Inr sh"
  shows "weighted_sum c d m < 2 ^ 32" and "unat sh = weighted_sum c d m div 100"
proof -
  show fits: "weighted_sum c d m < 2 ^ 32"
    using assms calculateSharePercentage_overflow [of c d m] by auto
  show "unat sh = weighted_sum c d m div 100"
    using assms calculateSharePercentage_fits [OF fits] by simp
qed

subsection \<open>Decoding what was encoded\<close>

lemma be_nat_zeros: "be_nat (replicate n 0) = 0"
  by (induction n) (simp_all add: be_nat_def)

lemma be_nat_append: "be_nat (xs @ ys) = foldl (\<lambda>acc b. acc * 256 + unat b) (be_nat xs) ys"
  by (simp add: be_nat_def)

lemma unat_byte: "unat (of_nat (x mod 256) :: 8 word) = x mod 256"
  by (simp add: unat_of_nat)

lemma bytes_sum:
  fixes n :: nat
  shows "((n div 2 ^ 24 mod 256 * 256 + n div 2 ^ 16 mod 256) * 256 + n div 2 ^ 8 mod 256) * 256
           + n mod 256 = n mod 2 ^ 32"
proof -
  define a where "a = n div 256"
  define b where "b = a div 256"
  define c where "c = b div 256"
  have d8: "n div 2 ^ 8 = a" by (simp add: a_def)
  have d16: "n div 2 ^ 16 = b"
    using div_mult2_eq [of n 256 256] by (simp add: a_def b_def)
  have d24: "n div 2 ^ 24 = c"
    using div_mult2_eq [of n 65536 256] d16 by (simp add: c_def)
  have m1: "n mod 2 ^ 32 = 256 * (a mod 2 ^ 24) + n mod 256"
    using mod_mult2_eq [of n 256 "2 ^ 24"] by (simp add: a_def)
  have m2: "a mod 2 ^ 24 = 256 * (b mod 2 ^ 16) + a mod 256"
    using mod_mult2_eq [of a 256 "2 ^ 16"] by (simp add: b_def)
  have m3: "b mod 2 ^ 16 = 256 * (c mod 256) + b mod 256"
    using mod_mult2_eq [of b 256 256] by (simp add: c_def)
  show ?thesis unfolding d8 d16 d24 m1 m2 m3 by (simp add: algebra_simps)
qed

lemma be_nat_encode: "be_nat (abi_encode_uint32 v) = unat v"
proof -
  have "be_nat (abi_encode_uint32 v) =
     ((unat v div 2 ^ 24 mod 256 * 256 + unat v div 2 ^ 16 mod 256) * 256
        + unat v div 2 ^ 8 mod 256) * 256 + unat v mod 256"
    unfolding abi_encode_uint32_def be_nat_append be_nat_zeros
    by (simp only: foldl.simps unat_byte mult_zero_left add_0)
  also have "\<dots> = unat v mod 2 ^ 32" by (rule bytes_sum)
  also have "\<dots> = unat v" using unsigned_less [of v, where 'a = nat] by simp
  finally show ?thesis .
qed

lemma length_encode: "length (abi_encode_uint32 v) = 32"
  by (simp add: abi_encode_uint32_def)

lemma abi_word_0: "length xs = 32 \<Longrightarrow> abi_word (xs @ ys) 0 = be_nat xs"
  by (simp add: abi_word_def)

lemma abi_word_Suc: "length xs = 32 \<Longrightarrow> abi_word (xs @ ys) (Suc i) = abi_word ys i"
  by (simp add: abi_word_def)

lemma abi_uint32_encode: "abi_uint32 (abi_encode_uint32 v @ ys) 0 = Inr v"
  using unsigned_less [of v, where 'a = nat]
  by (simp add: abi_uint32_def abi_word_0 length_encode be_nat_encode)

lemma abi_uint32_skip: "abi_uint32 (abi_encode_uint32 v @ ys) (Suc i) = abi_uint32 ys i"
  by (simp add: abi_uint32_def abi_word_Suc length_encode)

lemma abi_decode_uint32_encode: "abi_decode_uint32 (abi_encode_uint32 v) = Inr v"
  using abi_uint32_encode [of v "[]"] by (simp add: abi_decode_uint32_def length_encode)

lemma abi_decode_uint32x3_encode:
  "abi_decode_uint32x3 (abi_encode_uint32x3 a b c) = Inr (a, b, c)"
proof -
  have two: "(2::nat) = Suc (Suc 0)" by simp
  have "abi_uint32 (abi_encode_uint32 a @ abi_encode_uint32 b @ abi_encode_uint32 c) 1 = Inr b"
    using abi_uint32_skip [of a _ 0] abi_uint32_encode [of b] by simp
  moreover have
    "abi_uint32 (abi_encode_uint32 a @ abi_encode_uint32 b @ abi_encode_uint32 c) 2 = Inr c"
    unfolding two abi_uint32_skip using abi_uint32_encode [of c "[]"] by simp
  ultimately show ?thesis
    by (simp add: abi_decode_uint32x3_def abi_encode_uint32x3_def length_encode abi_uint32_encode)
qed

subsection \<open>Conversions between the two widths\<close>

lemma unat_ucast_share: "unat (ucast (sh :: uint32) :: uint256) = unat sh"
proof -
  have "unat sh < 2 ^ 32" using unsigned_less [of sh, where 'a = nat] by simp
  then have "unat sh < 2 ^ 256" by (rule less_trans) simp
  then show ?thesis by (simp add: unsigned_ucast_eq take_bit_nat_eq_self)
qed

lemma unat_ucast_payment: "unat (ucast (p :: uint256) :: uint32) = unat p mod 2 ^ 32"
  by (simp add: unsigned_ucast_eq take_bit_eq_mod)

lemma unat_ucast_ucast_payment:
  "unat (ucast (ucast (p :: uint256) :: uint32) :: uint256) = unat p mod 2 ^ 32"
  unfolding unat_ucast_share by (rule unat_ucast_payment)

lemma ucast_payment_agree:
  "(ucast (ucast (p :: uint256) :: uint32) :: uint256) = p \<longleftrightarrow> unat p < 2 ^ 32"
proof
  assume "(ucast (ucast p :: uint32) :: uint256) = p"
  then have "unat p = unat p mod 2 ^ 32"
    using unat_ucast_ucast_payment [of p] by simp
  moreover have "unat p mod 2 ^ 32 < 2 ^ 32" by simp
  ultimately show "unat p < 2 ^ 32" by simp
next
  assume "unat p < 2 ^ 32"
  then have "unat (ucast (ucast p :: uint32) :: uint256) = unat p"
    unfolding unat_ucast_ucast_payment by simp
  then show "(ucast (ucast p :: uint32) :: uint256) = p"
    by (simp only: word_unat_eq_iff)
qed

subsection \<open>The functions as chains of guards\<close>

lemma processRoyaltyCalculation_unfold:
  "processRoyaltyCalculation chk r ct pf s =
     (if contributionId_at s r = 0 then Inl InvalidRequest
      else if FHE_decrypt (isClaimed (distribution_at s
                (contributorHash (contribution_at s (contributionId_at s r)))))
      then Inl AlreadyProcessed
      else if \<not> chk r ct pf then Inl InvalidSignatures
      else (case abi_decode_uint32x3 ct of Inl e \<Rightarrow> Inl e
      | Inr (c, d, m) \<Rightarrow>
     (case calculateSharePercentage c d m of Inl e \<Rightarrow> Inl e
      | Inr share \<Rightarrow>
     (case checked_mul (totalRewardPool s) (ucast share) of Inl e \<Rightarrow> Inl e
      | Inr scaled \<Rightarrow>
      Inr (s\<lparr>royaltyDistributions := (royaltyDistributions s)
               (contributorHash (contribution_at s (contributionId_at s r)) \<mapsto>
               \<lparr>encryptedShare = Euint32 share,
                encryptedPaymentAmount = Euint32 (ucast (scaled div 10000)),
                isClaimed = Ebool False\<rparr>),
             decryptedRoyalties := (decryptedRoyalties s)(contributionId_at s r \<mapsto>
               \<lparr>sharePercentage = share, paymentAmount = scaled div 10000, isRevealed = True\<rparr>),
             events := events s @ [RoyaltyDecrypted (contributionId_at s r)]\<rparr>)))))"
  by (simp add: processRoyaltyCalculation_def Let_def FHE_asEuint32_def FHE_asEbool_def
      split: sum.splits prod.splits)

lemma processRoyaltyCalculation_Inr:
  assumes "processRoyaltyCalculation chk r ct pf s = Inr s'"
  obtains c d m share scaled where
    "contributionId_at s r \<noteq> 0"
    "\<not> FHE_decrypt (isClaimed (distribution_at s
                (contributorHash (contribution_at s (contributionId_at s r)))))"
    "chk r ct pf"
    "abi_decode_uint32x3 ct = Inr (c, d, m)"
    "calculateSharePercentage c d m = Inr share"
    "checked_mul (totalRewardPool s) (ucast share) = Inr scaled"
    "s' = s\<lparr>royaltyDistributions := (royaltyDistributions s)
               (contributorHash (contribution_at s (contributionId_at s r)) \<mapsto>
               \<lparr>encryptedShare = Euint32 share,
                encryptedPaymentAmount = Euint32 (ucast (scaled div 10000)),
                isClaimed = Ebool False\<rparr>),
             decryptedRoyalties := (decryptedRoyalties s)(contributionId_at s r \<mapsto>
               \<lparr>sharePercentage = share, paymentAmount = scaled div 10000, isRevealed = True\<rparr>),
             events := events s @ [RoyaltyDecrypted (contributionId_at s r)]\<rparr>"
  using assms unfolding processRoyaltyCalculation_unfold
  by (auto split: if_splits sum.splits prod.splits)

lemma claimRoyalty_unfold:
  "claimRoyalty k reqId s =
     (if FHE_decrypt (isClaimed (distribution_at s k)) then Inl AlreadyClaimed
      else Inr (s\<lparr>decryptionRequests := decryptionRequests s @
                    [(reqId, [encryptedPaymentAmount (distribution_at s k)],
                      processRoyaltyPayment_selector)],
                  requestToContributorHash := (requestToContributorHash s)(reqId \<mapsto> k)\<rparr>))"
  by (simp add: claimRoyalty_def Let_def)

lemma processRoyaltyPayment_unfold:
  "processRoyaltyPayment chk r ct pf s =
     (if contributorHash_at s r = 0 then Inl InvalidRequest
      else if FHE_decrypt (isClaimed (distribution_at s (contributorHash_at s r)))
      then Inl AlreadyProcessed
      else if \<not> chk r ct pf then Inl InvalidSignatures
      else (case abi_decode_uint32 ct of Inl e \<Rightarrow> Inl e
      | Inr amount \<Rightarrow>
      Inr (s\<lparr>royaltyDistributions := (royaltyDistributions s)(contributorHash_at s r \<mapsto>
               (distribution_at s (contributorHash_at s r))\<lparr>isClaimed := Ebool True\<rparr>)\<rparr>)))"
  by (simp add: processRoyaltyPayment_def Let_def FHE_asEbool_def split: sum.splits)

lemma processRoyaltyPayment_Inr:
  assumes "processRoyaltyPayment chk r ct pf s = Inr s'"
  obtains amount where
    "contributorHash_at s r \<noteq> 0"
    "\<not> FHE_decrypt (isClaimed (distribution_at s (contributorHash_at s r)))"
    "chk r ct pf"
    "abi_decode_uint32 ct = Inr amount"
    "s' = s\<lparr>royaltyDistributions := (royaltyDistributions s)(contributorHash_at s r \<mapsto>
               (distribution_at s (contributorHash_at s r))\<lparr>isClaimed := Ebool True\<rparr>)\<rparr>"
  using assms unfolding processRoyaltyPayment_unfold
  by (auto split: if_splits sum.splits)

lemma calculateRoyaltyShare_result:
  "calculateRoyaltyShare i r s =
     Inr (s\<lparr>decryptionRequests := decryptionRequests s @
                [(r, [encryptedComputeHours (contribution_at s i),
                      encryptedDataQuality (contribution_at s i),
                      encryptedModelImpact (contribution_at s i)],
                  processRoyaltyCalculation_selector)],
              requestToContributionId := (requestToContributionId s)(r \<mapsto> i),
              events := events s @ [RoyaltyCalculationRequested i]\<rparr>)"
  by (simp add: calculateRoyaltyShare_def Let_def)

lemma depositRewardPool_Inr:
  "depositRewardPool v s = Inr s' \<Longrightarrow>
     unat (totalRewardPool s') = unat (totalRewardPool s) + unat v
     \<and> s' = s\<lparr>totalRewardPool := totalRewardPool s + v,
              events := events s @ [RewardPoolDeposited v]\<rparr>"
  by (auto simp: depositRewardPool_def checked_add_def unat_checked_add split: if_splits)

lemma submitEncryptedContribution_Inr:
  "submitEncryptedContribution ch dq mi k ts s = Inr s' \<Longrightarrow>
     unat (contributionCount s') = unat (contributionCount s) + 1
     \<and> s' = s\<lparr>contributionCount := contributionCount s + 1,
             contributions := (contributions s)(contributionCount s + 1 \<mapsto>
               \<lparr>id_c = contributionCount s + 1, encryptedComputeHours = ch,
                encryptedDataQuality = dq, encryptedModelImpact = mi,
                timestamp = ts, contributorHash = k\<rparr>),
             events := events s @ [ContributionRecorded (contributionCount s + 1) k ts]\<rparr>"
  by (auto simp: submitEncryptedContribution_def checked_add_def unat_checked_add
      split: if_splits)

subsection \<open>The reward pool\<close>

text \<open>Only a deposit writes the pool.\<close>

lemma pool_unchanged:
  "submitEncryptedContribution ch dq mi k ts s = Inr s' \<Longrightarrow> totalRewardPool s' = totalRewardPool s"
  "calculateRoyaltyShare i r s = Inr s' \<Longrightarrow> totalRewardPool s' = totalRewardPool s"
  "processRoyaltyCalculation chk r ct pf s = Inr s' \<Longrightarrow> totalRewardPool s' = totalRewardPool s"
  "claimRoyalty k r s = Inr s' \<Longrightarrow> totalRewardPool s' = totalRewardPool s"
  "processRoyaltyPayment chk r ct pf s = Inr s' \<Longrightarrow> totalRewardPool s' = totalRewardPool s"
proof -
  show "submitEncryptedContribution ch dq mi k ts s = Inr s' \<Longrightarrow> totalRewardPool s' = totalRewardPool s"
    by (drule submitEncryptedContribution_Inr) auto
  show "calculateRoyaltyShare i r s = Inr s' \<Longrightarrow> totalRewardPool s' = totalRewardPool s"
    by (auto simp: calculateRoyaltyShare_result)
  show "processRoyaltyCalculation chk r ct pf s = Inr s' \<Longrightarrow> totalRewardPool s' = totalRewardPool s"
    by (erule processRoyaltyCalculation_Inr) simp
  show "claimRoyalty k r s = Inr s' \<Longrightarrow> totalRewardPool s' = totalRewardPool s"
    by (auto simp: claimRoyalty_unfold split: if_splits)
  show "processRoyaltyPayment chk r ct pf s = Inr s' \<Longrightarrow> totalRewardPool s' = totalRewardPool s"
    by (auto simp: processRoyaltyPayment_unfold split: if_splits sum.splits)
qed

lemma no_returns_pool:
  "(\<And>s'. r = Inr s' \<Longrightarrow> totalRewardPool s' = totalRewardPool s) \<Longrightarrow>
     totalRewardPool (snd (no_returns r s)) = totalRewardPool s"
  by (cases r) (simp_all add: no_returns_def)

lemma transact_pool_other:
  assumes "\<forall>v. c \<noteq> DepositRewardPool v"
  shows "totalRewardPool (snd (transact chk c s)) = totalRewardPool s"
proof (cases c)
  case (DepositRewardPool v)
  with assms show ?thesis by simp
next
  case (GetDecryptedRoyalty i)
  then show ?thesis by (simp split: prod.splits)
qed (simp_all add: no_returns_pool pool_unchanged)

lemma transact_pool_deposit:
  "unat (totalRewardPool (snd (transact chk (DepositRewardPool v) s))) =
     unat (totalRewardPool s)
       + (case fst (transact chk (DepositRewardPool v) s) of Returned _ \<Rightarrow> unat v | _ \<Rightarrow> 0)"
  by (cases "depositRewardPool v s") (auto simp: no_returns_def dest: depositRewardPool_Inr)

lemma transact_pool:
  "unat (totalRewardPool (snd (transact chk c s))) =
     unat (totalRewardPool s) + deposited chk [c] s"
proof (cases "\<exists>v. c = DepositRewardPool v")
  case True
  then obtain v where "c = DepositRewardPool v" ..
  then show ?thesis
    using transact_pool_deposit [of chk v s] by (simp split: outcome.splits)
next
  case False
  then have "\<forall>v. c \<noteq> DepositRewardPool v" by simp
  then show ?thesis
    using transact_pool_other [of c chk s] by (cases c) (simp_all)
qed

lemma deposited_Cons:
  "deposited chk (c # cs) s = deposited chk [c] s + deposited chk cs (snd (transact chk c s))"
  by simp

lemma run_pool:
  "unat (totalRewardPool (run chk cs s)) = unat (totalRewardPool s) + deposited chk cs s"
proof (induction cs arbitrary: s)
  case Nil
  show ?case by simp
next
  case (Cons c cs)
  show ?case
    unfolding run.simps deposited_Cons [of chk c cs s] Cons.IH
    by (simp add: transact_pool)
qed

subsection \<open>Callbacks that arrive twice\<close>



subsection \<open>A claimed distribution is not written again\<close>








subsection \<open>Two claims of one contributor hash\<close>




subsection \<open>The contribution store\<close>

lemma recorded_ids_append: "recorded_ids (xs @ ys) = recorded_ids xs @ recorded_ids ys"
  by (induction xs rule: recorded_ids.induct) simp_all

lemma reachable_run: "reachable chk s \<Longrightarrow> reachable chk (run chk cs s)"
  by (induction cs arbitrary: s) (simp_all add: reachable_step)

text \<open>What a call other than a submission leaves as it was.\<close>

lemma no_returns_frame:
  assumes "\<And>s'. r = Inr s' \<Longrightarrow> contributionCount s' = contributionCount s
      \<and> contributions s' = contributions s
      \<and> recorded_ids (events s') = recorded_ids (events s)"
  shows "contributionCount (snd (no_returns r s)) = contributionCount s
      \<and> contributions (snd (no_returns r s)) = contributions s
      \<and> recorded_ids (events (snd (no_returns r s))) = recorded_ids (events s)"
  using assms by (cases r) (simp_all add: no_returns_def)

lemma transact_frame:
  assumes "\<forall>ch dq mi k ts. c \<noteq> SubmitEncryptedContribution ch dq mi k ts"
  shows "contributionCount (snd (transact chk c s)) = contributionCount s
      \<and> contributions (snd (transact chk c s)) = contributions s
      \<and> recorded_ids (events (snd (transact chk c s))) = recorded_ids (events s)"
proof (cases c)
  case (DepositRewardPool v)
  show ?thesis unfolding DepositRewardPool transact.simps
    by (rule no_returns_frame) (auto dest!: depositRewardPool_Inr simp: recorded_ids_append)
next
  case (SubmitEncryptedContribution ch dq mi k ts)
  with assms show ?thesis by simp
next
  case (CalculateRoyaltyShare i r)
  show ?thesis unfolding CalculateRoyaltyShare transact.simps
    by (rule no_returns_frame) (auto simp: calculateRoyaltyShare_result recorded_ids_append)
next
  case (ProcessRoyaltyCalculation r ct pf)
  show ?thesis unfolding ProcessRoyaltyCalculation transact.simps
    by (rule no_returns_frame)
      (erule processRoyaltyCalculation_Inr, simp add: recorded_ids_append)
next
  case (ClaimRoyalty k r)
  show ?thesis unfolding ClaimRoyalty transact.simps
    by (rule no_returns_frame) (auto simp: claimRoyalty_unfold split: if_splits)
next
  case (ProcessRoyaltyPayment r ct pf)
  show ?thesis unfolding ProcessRoyaltyPayment transact.simps
    by (rule no_returns_frame) (erule processRoyaltyPayment_Inr, simp)
next
  case (GetDecryptedRoyalty i)
  then show ?thesis by (simp split: prod.splits)
qed

lemma submissions_sequential_submit:
  assumes inv: "submissions_sequential s"
    and sub: "submitEncryptedContribution ch dq mi k ts s = Inr s'"
  shows "submissions_sequential s'"
proof -
  note eff = submitEncryptedContribution_Inr [OF sub]
  have cnt: "unat (contributionCount s') = unat (contributionCount s) + 1"
    by (rule eff [THEN conjunct1])
  have s': "s' = s\<lparr>contributionCount := contributionCount s + 1,
             contributions := (contributions s)(contributionCount s + 1 \<mapsto>
               \<lparr>id_c = contributionCount s + 1, encryptedComputeHours = ch,
                encryptedDataQuality = dq, encryptedModelImpact = mi,
                timestamp = ts, contributorHash = k\<rparr>),
             events := events s @ [ContributionRecorded (contributionCount s + 1) k ts]\<rparr>"
    by (rule eff [THEN conjunct2])
  have new: "contributionCount s' = contributionCount s + 1" by (simp add: s')
  have cnt': "unat (contributionCount s + 1) = Suc (unat (contributionCount s))"
    using cnt new by simp
  have ids: "map unat (recorded_ids (events s')) = [1..<Suc (unat (contributionCount s'))]"
    using inv by (simp add: submissions_sequential_def s' recorded_ids_append cnt')
  have dom: "contributions s' i \<noteq> None
            \<longleftrightarrow> 1 \<le> unat i \<and> unat i \<le> unat (contributionCount s')" for i
  proof (cases "i = contributionCount s + 1")
    case True
    then show ?thesis by (simp add: s' cnt')
  next
    case False
    then have "unat i \<noteq> Suc (unat (contributionCount s))"
      using cnt' by (metis word_unat_eq_iff)
    with False inv show ?thesis
      by (auto simp: submissions_sequential_def s' cnt')
  qed
  have idc: "contributions s' i = Some c \<longrightarrow> id_c c = i" for i c
    using inv by (auto simp: submissions_sequential_def s')
  from ids dom idc show ?thesis
    unfolding submissions_sequential_def by blast
qed

lemma submissions_sequential_transact:
  assumes "submissions_sequential s"
  shows "submissions_sequential (snd (transact chk c s))"
proof (cases "\<exists>ch dq mi k ts. c = SubmitEncryptedContribution ch dq mi k ts")
  case True
  then obtain ch dq mi k ts where c: "c = SubmitEncryptedContribution ch dq mi k ts" by blast
  show ?thesis
  proof (cases "submitEncryptedContribution ch dq mi k ts s")
    case (Inl e)
    with assms show ?thesis by (simp add: c no_returns_def)
  next
    case (Inr s')
    with submissions_sequential_submit [OF assms Inr] show ?thesis
      by (simp add: c no_returns_def)
  qed
next
  case False
  then have "\<forall>ch dq mi k ts. c \<noteq> SubmitEncryptedContribution ch dq mi k ts" by simp
  from transact_frame [OF this, of chk s] assms show ?thesis
    by (simp add: submissions_sequential_def)
qed

lemma reachable_submissions_sequential:
  "reachable chk s \<Longrightarrow> submissions_sequential s"
proof (induction rule: reachable.induct)
  case reachable_init
  show ?case by (simp add: submissions_sequential_def init_state_def)
next
  case (reachable_step s c)
  then show ?case by (simp add: submissions_sequential_transact)
qed

text \<open>A stored contribution stays as it is.\<close>

lemma contribution_kept_transact:
  assumes inv: "submissions_sequential s" and stored: "contributions s i = Some c"
  shows "contributions (snd (transact chk call s)) i = Some c"
proof (cases "\<exists>ch dq mi k ts. call = SubmitEncryptedContribution ch dq mi k ts")
  case True
  then obtain ch dq mi k ts where c: "call = SubmitEncryptedContribution ch dq mi k ts" by blast
  show ?thesis
  proof (cases "submitEncryptedContribution ch dq mi k ts s")
    case (Inl e)
    with stored show ?thesis by (simp add: c no_returns_def)
  next
    case (Inr s')
    note eff = submitEncryptedContribution_Inr [OF Inr]
    have new: "contributionCount s' = contributionCount s + 1"
      by (subst eff [THEN conjunct2]) simp
    have cnt: "unat (contributionCount s + 1) = unat (contributionCount s) + 1"
      using eff [THEN conjunct1] by (simp only: new)
    have s': "contributions s' = (contributions s)(contributionCount s + 1 \<mapsto>
               \<lparr>id_c = contributionCount s + 1, encryptedComputeHours = ch,
                encryptedDataQuality = dq, encryptedModelImpact = mi,
                timestamp = ts, contributorHash = k\<rparr>)"
      by (subst eff [THEN conjunct2]) simp
    from inv stored have "unat i \<le> unat (contributionCount s)"
      by (auto simp: submissions_sequential_def)
    with cnt have "i \<noteq> contributionCount s + 1" by auto
    with stored show ?thesis by (simp add: c no_returns_def Inr s')
  qed
next
  case False
  then have "\<forall>ch dq mi k ts. call \<noteq> SubmitEncryptedContribution ch dq mi k ts" by simp
  from transact_frame [OF this, of chk s] stored show ?thesis by simp
qed

lemma contribution_kept_run:
  "submissions_sequential s \<Longrightarrow> contributions s i = Some c \<Longrightarrow>
     contributions (run chk cs s) i = Some c"
proof (induction cs arbitrary: s)
  case Nil
  then show ?case by simp
next
  case (Cons call cs)
  from Cons.prems show ?case
    by (simp add: Cons.IH submissions_sequential_transact contribution_kept_transact)
qed

lemma recorded_ids_increasing:
  assumes "map unat (recorded_ids (events s)) = [1..<Suc (unat (contributionCount s))]"
  shows "sorted_wrt (<) (recorded_ids (events s))" and "distinct (recorded_ids (events s))"
proof -
  have "sorted_wrt (<) (map unat (recorded_ids (events s)))"
    unfolding assms by (rule sorted_wrt_upt)
  then have "sorted_wrt (\<lambda>x y. unat x < unat y) (recorded_ids (events s))"
    by (simp add: sorted_wrt_map)
  then show "sorted_wrt (<) (recorded_ids (events s))"
    by (rule sorted_wrt_mono_rel [rotated]) (simp add: word_less_nat_alt)
  have "distinct (map unat (recorded_ids (events s)))"
    unfolding assms by simp
  then show "distinct (recorded_ids (events s))"
    by (simp add: distinct_map)
qed

subsection \<open>Evaluating the example states\<close>

lemmas eval_defs = no_returns_def depositRewardPool_def submitEncryptedContribution_def
  calculateRoyaltyShare_def claimRoyalty_def checked_add_def checked_mul_def init_state_def
  contribution_at_def distribution_at_def royalty_at_def contributionId_at_def
  contributorHash_at_def zero_contribution_def zero_distribution_def zero_royalty_def
  accept_all_def Let_def

lemma pending_state:
  "example_pending =
     \<lparr>contributionCount = 1, totalRewardPool = 1000,
      contributions = [1 \<mapsto> \<lparr>id_c = 1, encryptedComputeHours = Euint32 100,
                encryptedDataQuality = Euint32 80, encryptedModelImpact = Euint32 60,
                timestamp = 1700000000, contributorHash = 5\<rparr>],
      royaltyDistributions = Map.empty, decryptedRoyalties = Map.empty,
      requestToContributionId = [7 \<mapsto> 1], requestToContributorHash = Map.empty,
      events = [RewardPoolDeposited 1000, ContributionRecorded 1 5 1700000000,
                RoyaltyCalculationRequested 1],
      decryptionRequests =
        [(7, [Euint32 100, Euint32 80, Euint32 60], processRoyaltyCalculation_selector)]\<rparr>"
  by (simp add: example_pending_def eval_defs)

lemma large_pool_state:
  "example_large_pool =
     \<lparr>contributionCount = 1, totalRewardPool = 42949672960000,
      contributions = [1 \<mapsto> \<lparr>id_c = 1, encryptedComputeHours = Euint32 3,
                encryptedDataQuality = Euint32 0, encryptedModelImpact = Euint32 0,
                timestamp = 1700000000, contributorHash = 5\<rparr>],
      royaltyDistributions = Map.empty, decryptedRoyalties = Map.empty,
      requestToContributionId = [7 \<mapsto> 1], requestToContributorHash = Map.empty,
      events = [RewardPoolDeposited 42949672960000, ContributionRecorded 1 5 1700000000,
                RoyaltyCalculationRequested 1],
      decryptionRequests =
        [(7, [Euint32 3, Euint32 0, Euint32 0], processRoyaltyCalculation_selector)]\<rparr>"
  by (simp add: example_large_pool_def eval_defs)

lemma revealed_state:
  "example_revealed =
     \<lparr>contributionCount = 1, totalRewardPool = 1000,
      contributions = [1 \<mapsto> \<lparr>id_c = 1, encryptedComputeHours = Euint32 100,
                encryptedDataQuality = Euint32 80, encryptedModelImpact = Euint32 60,
                timestamp = 1700000000, contributorHash = 5\<rparr>],
      royaltyDistributions = [5 \<mapsto> \<lparr>encryptedShare = Euint32 83,
                encryptedPaymentAmount = Euint32 8, isClaimed = Ebool False\<rparr>],
      decryptedRoyalties = [1 \<mapsto> \<lparr>sharePercentage = 83, paymentAmount = 8,
                isRevealed = True\<rparr>],
      requestToContributionId = [7 \<mapsto> 1], requestToContributorHash = Map.empty,
      events = [RewardPoolDeposited 1000, ContributionRecorded 1 5 1700000000,
                RoyaltyCalculationRequested 1, RoyaltyDecrypted 1],
      decryptionRequests =
        [(7, [Euint32 100, Euint32 80, Euint32 60], processRoyaltyCalculation_selector)]\<rparr>"
  unfolding example_revealed_def pending_state
  by (simp add: eval_defs processRoyaltyCalculation_unfold abi_decode_uint32x3_encode
      calculateSharePercentage_def)

lemma claimed_state:
  "example_claimed =
     \<lparr>contributionCount = 1, totalRewardPool = 1000,
      contributions = [1 \<mapsto> \<lparr>id_c = 1, encryptedComputeHours = Euint32 100,
                encryptedDataQuality = Euint32 80, encryptedModelImpact = Euint32 60,
                timestamp = 1700000000, contributorHash = 5\<rparr>],
      royaltyDistributions = [5 \<mapsto> \<lparr>encryptedShare = Euint32 83,
                encryptedPaymentAmount = Euint32 8, isClaimed = Ebool True\<rparr>],
      decryptedRoyalties = [1 \<mapsto> \<lparr>sharePercentage = 83, paymentAmount = 8,
                isRevealed = True\<rparr>],
      requestToContributionId = [7 \<mapsto> 1], requestToContributorHash = [9 \<mapsto> 5],
      events = [RewardPoolDeposited 1000, ContributionRecorded 1 5 1700000000,
                RoyaltyCalculationRequested 1, RoyaltyDecrypted 1],
      decryptionRequests =
        [(7, [Euint32 100, Euint32 80, Euint32 60], processRoyaltyCalculation_selector),
         (9, [Euint32 8], processRoyaltyPayment_selector)]\<rparr>"
  unfolding example_claimed_def revealed_state
  by (simp add: eval_defs processRoyaltyPayment_unfold abi_decode_uint32_encode)





lemma reachable_claimed: "reachable accept_all example_claimed"
  unfolding example_claimed_def example_revealed_def example_pending_def
  by (intro reachable_run reachable_init)

section \<open>The claims\<close>

subsection \<open>C1: callbacks and the request registry\<close>




subsection \<open>C2: one distribution for each contributor hash\<close>




subsection \<open>C3: requesting a calculation\<close>

text \<open>
  Claim C3, as stated, says that \<open>calculateRoyaltyShare\<close> fails when a distribution already
  exists for the contribution's contributor hash, and succeeds only for a contribution
  that exists. The function has no \<^verbatim>\<open>require\<close>. Here a distribution exists for the
  hash of contribution 1 and the request still goes through, handing a decryption request
  to the oracle and writing the registry; a request for the id 42, under which nothing
  was submitted, goes through as well.
\<close>

theorem calculateRoyaltyShare_unguarded_counterexample:
  "royaltyDistributions example_revealed (contributorHash (contribution_at example_revealed 1))
     = Some \<lparr>encryptedShare = Euint32 83, encryptedPaymentAmount = Euint32 8,
             isClaimed = Ebool False\<rparr>
   \<and> fst (transact accept_all (CalculateRoyaltyShare 1 8) example_revealed) = Returned Void
   \<and> decryptionRequests (snd (transact accept_all (CalculateRoyaltyShare 1 8) example_revealed))
     = decryptionRequests example_revealed
        @ [(8, [Euint32 100, Euint32 80, Euint32 60], processRoyaltyCalculation_selector)]
   \<and> requestToContributionId
        (snd (transact accept_all (CalculateRoyaltyShare 1 8) example_revealed)) 8 = Some 1
   \<and> contributions init_state 42 = None
   \<and> fst (transact accept_all (CalculateRoyaltyShare 42 8) init_state) = Returned Void"
  unfolding revealed_state by (simp add: eval_defs)

text \<open>
  Claim C3, amended. \<open>calculateRoyaltyShare\<close> goes through for every contribution id and
  in every state, whether or not a contribution is stored under the id and whether or not
  a distribution exists for its contributor hash: it hands the oracle one decryption
  request for the three ciphertexts stored under the id, registers the request id for the
  contribution id, and emits \<open>RoyaltyCalculationRequested\<close>.
\<close>

theorem calculateRoyaltyShare_unguarded:
  "transact chk (CalculateRoyaltyShare contributionId reqId) s =
     (Returned Void,
      s\<lparr>decryptionRequests := decryptionRequests s @
            [(reqId, [encryptedComputeHours (contribution_at s contributionId),
                      encryptedDataQuality (contribution_at s contributionId),
                      encryptedModelImpact (contribution_at s contributionId)],
              processRoyaltyCalculation_selector)],
        requestToContributionId := (requestToContributionId s)(reqId \<mapsto> contributionId),
        events := events s @ [RoyaltyCalculationRequested contributionId]\<rparr>)"
  by (simp add: calculateRoyaltyShare_result no_returns_def)

theorem calculateRoyaltyShare_unguarded_witness:
  "transact accept_all (CalculateRoyaltyShare 1 8) example_claimed =
     (Returned Void,
      example_claimed\<lparr>decryptionRequests := decryptionRequests example_claimed @
            [(8, [Euint32 100, Euint32 80, Euint32 60], processRoyaltyCalculation_selector)],
        requestToContributionId := (requestToContributionId example_claimed)(8 \<mapsto> 1),
        events := events example_claimed @ [RoyaltyCalculationRequested 1]\<rparr>)"
  using calculateRoyaltyShare_unguarded [of accept_all 1 8 example_claimed]
  by (simp add: claimed_state eval_defs)

subsection \<open>C4: requesting a claim\<close>

text \<open>
  Claim C4, as stated, says that \<open>claimRoyalty\<close> fails with \<open>NoDistribution\<close> when no
  distribution exists for the contributor hash. The function reads the mapping, gets the
  zero distribution whose flag decrypts to false, and goes on: at deployment, with no
  distribution at all, a claim for the hash 5 goes through and asks the oracle to decrypt
  the zero handle.
\<close>

theorem claimRoyalty_without_distribution_counterexample:
  "royaltyDistributions init_state 5 = None
   \<and> fst (transact accept_all (ClaimRoyalty 5 9) init_state) = Returned Void
   \<and> decryptionRequests (snd (transact accept_all (ClaimRoyalty 5 9) init_state))
       = [(9, [Euint32 0], processRoyaltyPayment_selector)]"
  by (simp add: eval_defs)

text \<open>
  Claim C4, amended. \<open>claimRoyalty\<close> reverts with "Already claimed" exactly when the
  claimed flag stored for the contributor hash decrypts to true, and then hands nothing to
  the oracle and leaves the state as it was. Otherwise it goes through, also when no
  distribution was ever written for the hash (the flag then reads false and the payment
  ciphertext is the zero handle): it asks the oracle to decrypt the stored payment
  ciphertext and registers the request id for the hash.
\<close>

theorem claimRoyalty_checks_flag_only:
  "(FHE_decrypt (isClaimed (distribution_at s k))
      \<longrightarrow> transact chk (ClaimRoyalty k reqId) s = (Reverted AlreadyClaimed, s))
   \<and> (\<not> FHE_decrypt (isClaimed (distribution_at s k))
      \<longrightarrow> transact chk (ClaimRoyalty k reqId) s =
           (Returned Void,
            s\<lparr>decryptionRequests := decryptionRequests s @
                  [(reqId, [encryptedPaymentAmount (distribution_at s k)],
                    processRoyaltyPayment_selector)],
              requestToContributorHash := (requestToContributorHash s)(reqId \<mapsto> k)\<rparr>))
   \<and> (royaltyDistributions s k = None
      \<longrightarrow> \<not> FHE_decrypt (isClaimed (distribution_at s k))
        \<and> encryptedPaymentAmount (distribution_at s k) = Euint32 0)"
  by (simp add: claimRoyalty_unfold no_returns_def distribution_at_def zero_distribution_def)

theorem claimRoyalty_checks_flag_only_witness:
  "FHE_decrypt (isClaimed (distribution_at example_claimed 5))
   \<and> transact accept_all (ClaimRoyalty 5 10) example_claimed
       = (Reverted AlreadyClaimed, example_claimed)
   \<and> \<not> FHE_decrypt (isClaimed (distribution_at example_revealed 5))
   \<and> fst (transact accept_all (ClaimRoyalty 5 10) example_revealed) = Returned Void
   \<and> royaltyDistributions example_claimed 6 = None
   \<and> fst (transact accept_all (ClaimRoyalty 6 10) example_claimed) = Returned Void"
proof -
  have c: "FHE_decrypt (isClaimed (distribution_at example_claimed 5))"
    and n: "royaltyDistributions example_claimed 6 = None"
    by (simp_all add: claimed_state eval_defs)
  have u: "\<not> FHE_decrypt (isClaimed (distribution_at example_revealed 5))"
    by (simp add: revealed_state eval_defs)
  show ?thesis
    using claimRoyalty_checks_flag_only [of example_claimed 5 accept_all 10]
      claimRoyalty_checks_flag_only [of example_revealed 5 accept_all 10]
      claimRoyalty_checks_flag_only [of example_claimed 6 accept_all 10] c n u
    by simp
qed

subsection \<open>C5: the share and payment formulas\<close>

text \<open>
  Claim C5. Whenever the calculation callback goes through, the share it records for the
  decoded metrics is \<open>(computeHours * 40 + dataQuality * 35 + modelImpact * 25) div 100\<close>
  and the payment it records is \<open>pool * share div 10000\<close>, over the natural numbers and
  with the reward pool as it is when the callback runs. In particular the metrics
  100, 80, 60 and a pool of 1000 give the share 83 and the payment 8.
\<close>

theorem share_and_payment_formula:
  assumes success: "processRoyaltyCalculation chk requestId cleartexts prf s = Inr s'"
    and decoded: "abi_decode_uint32x3 cleartexts = Inr (computeHours, dataQuality, modelImpact)"
  shows "unat (sharePercentage (royalty_at s' (contributionId_at s requestId))) =
           (unat computeHours * 40 + unat dataQuality * 35 + unat modelImpact * 25) div 100
       \<and> unat (paymentAmount (royalty_at s' (contributionId_at s requestId))) =
           unat (totalRewardPool s)
             * unat (sharePercentage (royalty_at s' (contributionId_at s requestId))) div 10000
       \<and> (computeHours = 100 \<and> dataQuality = 80 \<and> modelImpact = 60 \<and> totalRewardPool s = 1000
            \<longrightarrow> getDecryptedRoyalty (contributionId_at s requestId) s' = (83, 8, True))"
proof -
  from success obtain c d m share scaled where
    dec: "abi_decode_uint32x3 cleartexts = Inr (c, d, m)"
    and sh: "calculateSharePercentage c d m = Inr share"
    and mul: "checked_mul (totalRewardPool s) (ucast share) = Inr scaled"
    and roy: "royalty_at s' (contributionId_at s requestId) =
      \<lparr>sharePercentage = share, paymentAmount = scaled div 10000, isRevealed = True\<rparr>"
    by (rule processRoyaltyCalculation_Inr) (simp add: royalty_at_def)
  from dec decoded have eq: "c = computeHours" "d = dataQuality" "m = modelImpact" by simp_all
  have share: "unat share = weighted_sum computeHours dataQuality modelImpact div 100"
    using calculateSharePercentage_Inr(2) [OF sh] eq by simp
  have scaled: "unat scaled = unat (totalRewardPool s) * unat share"
    using checked_mul_Inr [OF mul] by (simp add: unat_ucast_share)
  have pay: "unat (scaled div 10000) = unat (totalRewardPool s) * unat share div 10000"
    by (simp add: unat_div scaled)
  have ex: "share = 83 \<and> scaled div 10000 = 8"
    if "computeHours = 100" "dataQuality = 80" "modelImpact = 60" "totalRewardPool s = 1000"
  proof -
    have "unat share = 83" using share that by (simp add: weighted_sum_def)
    then have s83: "share = 83" by (simp add: word_unat_eq_iff)
    have "unat (scaled div 10000) = 8" using pay that s83 by simp
    then have "scaled div 10000 = 8" by (simp add: word_unat_eq_iff)
    with s83 show ?thesis by simp
  qed
  show ?thesis
    using share pay ex by (simp add: roy weighted_sum_def getDecryptedRoyalty_def)
qed

text \<open>The example of the claim, run from deployment: the callback for request 7 goes
  through and the royalty read back for contribution 1 is (83, 8, revealed).\<close>

theorem share_and_payment_formula_witness:
  "\<exists>s'. processRoyaltyCalculation accept_all 7 (abi_encode_uint32x3 100 80 60) []
            example_pending = Inr s'
        \<and> abi_decode_uint32x3 (abi_encode_uint32x3 100 80 60) = Inr (100, 80, 60)
        \<and> getDecryptedRoyalty 1 s' = (83, 8, True)"
proof -
  have "processRoyaltyCalculation accept_all 7 (abi_encode_uint32x3 100 80 60) []
          example_pending \<noteq> Inl e" for e
    unfolding processRoyaltyCalculation_unfold pending_state
    by (simp add: eval_defs abi_decode_uint32x3_encode calculateSharePercentage_def)
  then obtain s' where s':
    "processRoyaltyCalculation accept_all 7 (abi_encode_uint32x3 100 80 60) []
       example_pending = Inr s'"
    by (cases "processRoyaltyCalculation accept_all 7 (abi_encode_uint32x3 100 80 60) []
                 example_pending") auto
  have i: "contributionId_at example_pending 7 = 1" "totalRewardPool example_pending = 1000"
    by (simp_all add: pending_state contributionId_at_def)
  show ?thesis
    using share_and_payment_formula [OF s' abi_decode_uint32x3_encode] s'
    by (simp add: i abi_decode_uint32x3_encode)
qed

subsection \<open>C6: the claimed flag\<close>




subsection \<open>C7: contribution ids\<close>

text \<open>
  Claim C7, as stated, says that the submission returns the new id to its caller.
  \<open>submitEncryptedContribution\<close> declares no return value: the first submission after
  deployment assigns the id 1, stores the record and emits \<open>ContributionRecorded\<close> with the
  id, and what the caller gets back is empty.
\<close>

theorem submit_returns_nothing_counterexample:
  "transact accept_all
     (SubmitEncryptedContribution (Euint32 100) (Euint32 80) (Euint32 60) 5 1700000000)
     init_state
   = (Returned Void,
      init_state\<lparr>contributionCount := 1,
        contributions := [1 \<mapsto> \<lparr>id_c = 1, encryptedComputeHours = Euint32 100,
                encryptedDataQuality = Euint32 80, encryptedModelImpact = Euint32 60,
                timestamp = 1700000000, contributorHash = 5\<rparr>],
        events := [ContributionRecorded 1 5 1700000000]\<rparr>)"
  by (simp add: eval_defs)

text \<open>
  Claim C7, amended. A submission that goes through assigns the contribution count plus
  one as the new id, stores the record under it with the ciphertexts, the timestamp and
  the contributor hash as they were passed, and reports the id in the
  \<open>ContributionRecorded\<close> event; it returns no value. The count is 0 at deployment, so in
  every state the contract can reach the ids reported so far are 1, 2, ... up to the
  count, in this order, hence strictly increasing and without repetition; contributions
  are stored under exactly these ids, each carrying its own id, and a stored contribution
  is the same after every further sequence of transactions.
\<close>

theorem submission_ids_sequential:
  "(\<forall>s'. submitEncryptedContribution ch dq mi k ts s = Inr s' \<longrightarrow>
        unat (contributionCount s') = unat (contributionCount s) + 1
      \<and> contributions s' (contributionCount s')
          = Some \<lparr>id_c = contributionCount s', encryptedComputeHours = ch,
                  encryptedDataQuality = dq, encryptedModelImpact = mi,
                  timestamp = ts, contributorHash = k\<rparr>
      \<and> events s' = events s @ [ContributionRecorded (contributionCount s') k ts]
      \<and> transact chk (SubmitEncryptedContribution ch dq mi k ts) s = (Returned Void, s'))
   \<and> contributionCount init_state = 0
   \<and> (reachable chk s \<longrightarrow>
        map unat (recorded_ids (events s)) = [1..<Suc (unat (contributionCount s))]
      \<and> sorted_wrt (<) (recorded_ids (events s))
      \<and> distinct (recorded_ids (events s))
      \<and> (\<forall>i. contributions s i \<noteq> None
             \<longleftrightarrow> 1 \<le> unat i \<and> unat i \<le> unat (contributionCount s))
      \<and> (\<forall>i c cs. contributions s i = Some c
             \<longrightarrow> id_c c = i \<and> contributions (run chk cs s) i = Some c))"
proof (intro conjI impI allI)
  fix s' assume sub: "submitEncryptedContribution ch dq mi k ts s = Inr s'"
  note eff = submitEncryptedContribution_Inr [OF sub]
  show "unat (contributionCount s') = unat (contributionCount s) + 1"
    by (rule eff [THEN conjunct1])
  show "contributions s' (contributionCount s')
          = Some \<lparr>id_c = contributionCount s', encryptedComputeHours = ch,
                  encryptedDataQuality = dq, encryptedModelImpact = mi,
                  timestamp = ts, contributorHash = k\<rparr>"
    by (subst (1 2 3) eff [THEN conjunct2]) simp
  show "events s' = events s @ [ContributionRecorded (contributionCount s') k ts]"
    by (subst (1 2) eff [THEN conjunct2]) simp
  show "transact chk (SubmitEncryptedContribution ch dq mi k ts) s = (Returned Void, s')"
    by (simp add: sub no_returns_def)
next
  show "contributionCount init_state = 0" by (simp add: init_state_def)
next
  assume r: "reachable chk s"
  then have inv: "submissions_sequential s" by (rule reachable_submissions_sequential)
  then show ids: "map unat (recorded_ids (events s)) = [1..<Suc (unat (contributionCount s))]"
    by (simp add: submissions_sequential_def)
  from ids show "sorted_wrt (<) (recorded_ids (events s))" "distinct (recorded_ids (events s))"
    by (rule recorded_ids_increasing)+
  fix i
  from inv show "contributions s i \<noteq> None
             \<longleftrightarrow> 1 \<le> unat i \<and> unat i \<le> unat (contributionCount s)"
    unfolding submissions_sequential_def by blast
  fix c cs assume stored: "contributions s i = Some c"
  with inv show "id_c c = i" unfolding submissions_sequential_def by blast
  from inv stored show "contributions (run chk cs s) i = Some c"
    by (rule contribution_kept_run)
qed

theorem submission_ids_sequential_witness:
  "reachable accept_all example_claimed
   \<and> recorded_ids (events example_claimed) = [1]
   \<and> contributions (run accept_all example_second_contribution example_claimed) 1
       = Some \<lparr>id_c = 1, encryptedComputeHours = Euint32 100,
                encryptedDataQuality = Euint32 80, encryptedModelImpact = Euint32 60,
                timestamp = 1700000000, contributorHash = 5\<rparr>
   \<and> recorded_ids (events (run accept_all example_second_contribution example_claimed))
       = [1, 2]
   \<and> (\<exists>s'. submitEncryptedContribution (Euint32 0) (Euint32 0) (Euint32 0) 5 1700000100
               example_claimed = Inr s'
         \<and> contributionCount s' = 2
         \<and> events s' = events example_claimed @ [ContributionRecorded 2 5 1700000100])"
proof -
  note r = reachable_claimed
  have stored: "contributions example_claimed 1
       = Some \<lparr>id_c = 1, encryptedComputeHours = Euint32 100,
                encryptedDataQuality = Euint32 80, encryptedModelImpact = Euint32 60,
                timestamp = 1700000000, contributorHash = 5\<rparr>"
    and ids: "recorded_ids (events example_claimed) = [1]"
    by (simp_all add: claimed_state)
  have kept: "contributions (run accept_all example_second_contribution example_claimed) 1
       = Some \<lparr>id_c = 1, encryptedComputeHours = Euint32 100,
                encryptedDataQuality = Euint32 80, encryptedModelImpact = Euint32 60,
                timestamp = 1700000000, contributorHash = 5\<rparr>"
    using submission_ids_sequential [of _ _ _ _ _ example_claimed accept_all] r stored
    by blast
  have ids2: "recorded_ids (events (run accept_all example_second_contribution example_claimed))
       = [1, 2]"
    unfolding claimed_state example_second_contribution_def
    by (simp add: eval_defs processRoyaltyCalculation_unfold abi_decode_uint32x3_encode
      calculateSharePercentage_def)
  obtain s' where s': "submitEncryptedContribution (Euint32 0) (Euint32 0) (Euint32 0) 5
      1700000100 example_claimed = Inr s'"
    unfolding claimed_state by (simp add: eval_defs)
  have "unat (contributionCount s') = unat (contributionCount example_claimed) + 1"
    and ev: "events s' = events example_claimed @
      [ContributionRecorded (contributionCount s') 5 1700000100]"
    using submission_ids_sequential
      [of "Euint32 0" "Euint32 0" "Euint32 0" 5 1700000100 example_claimed accept_all] s'
    by blast+
  then have "unat (contributionCount s') = 2" by (simp add: claimed_state)
  then have two: "contributionCount s' = 2" by (simp add: word_unat_eq_iff)
  show ?thesis
    using r ids kept ids2 s' two ev by simp
qed

subsection \<open>C8: the reward pool is the sum of the deposits\<close>

text \<open>
  Claim C8. A deposit that goes through raises the reward pool by exactly the deposited
  amount, no other function changes the pool, and so after any sequence of transactions
  the pool is the earlier pool plus the sum of the amounts deposited in between, and it
  never decreases. A deposit that would take the pool beyond \<^verbatim>\<open>uint256\<close> reverts
  and deposits nothing.
\<close>

theorem deposits_accumulate:
  "(\<forall>v s'. depositRewardPool v s = Inr s'
      \<longrightarrow> unat (totalRewardPool s') = unat (totalRewardPool s) + unat v)
   \<and> (\<forall>c. (\<forall>v. c \<noteq> DepositRewardPool v)
      \<longrightarrow> totalRewardPool (snd (transact chk c s)) = totalRewardPool s)
   \<and> unat (totalRewardPool (run chk cs s)) = unat (totalRewardPool s) + deposited chk cs s
   \<and> unat (totalRewardPool s) \<le> unat (totalRewardPool (run chk cs s))"
  using depositRewardPool_Inr [of _ s] transact_pool_other [of _ chk s] run_pool [of chk cs s]
  by auto

text \<open>Deposits of 1000, 500 and 250 around a calculation request and its callback
  leave a pool of 1750.\<close>

theorem deposits_accumulate_witness:
  "deposited accept_all example_interleaving init_state = 1000 + 500 + 250
   \<and> totalRewardPool (run accept_all example_interleaving init_state) = 1750
   \<and> outcomes accept_all example_interleaving init_state =
       [Returned Void, Returned Void, Returned Void, Returned Void, Returned Void, Returned Void]
   \<and> totalRewardPool (snd (transact accept_all (CalculateRoyaltyShare 1 7) init_state)) = 0"
proof -
  have d: "deposited accept_all example_interleaving init_state = 1750"
    and o: "outcomes accept_all example_interleaving init_state =
       [Returned Void, Returned Void, Returned Void, Returned Void, Returned Void, Returned Void]"
    by (simp_all add: example_interleaving_def eval_defs processRoyaltyCalculation_unfold
        abi_decode_uint32x3_encode calculateSharePercentage_def)
  have "unat (totalRewardPool (run accept_all example_interleaving init_state)) = 1750"
    using deposits_accumulate [of init_state accept_all example_interleaving] d
    by (simp add: init_state_def)
  then have r: "totalRewardPool (run accept_all example_interleaving init_state) = 1750"
    by (simp add: word_unat_eq_iff)
  have "\<forall>v. CalculateRoyaltyShare 1 7 \<noteq> DepositRewardPool v" by simp
  then have "totalRewardPool (snd (transact accept_all (CalculateRoyaltyShare 1 7) init_state))
      = totalRewardPool init_state"
    using deposits_accumulate [of init_state accept_all "[]"] by blast
  with d o r show ?thesis by (simp add: init_state_def)
qed

subsection \<open>C9: the encrypted payment is the audit payment cut to 32 bits\<close>

text \<open>
  Claim C9. After a calculation callback the audit record holds the whole 256-bit payment
  \<open>pool * share div 10000\<close>, and the distribution holds the encryption of that payment
  converted to \<^verbatim>\<open>uint32\<close>, which is the payment modulo \<open>2 ^ 32\<close>. The two agree
  exactly when the payment is below \<open>2 ^ 32\<close>. The claim path works on the 32-bit value:
  \<open>claimRoyalty\<close> asks the oracle to decrypt that ciphertext, and decoding the oracle's
  cleartext for it in the payment callback gives the truncated amount.
\<close>

theorem payment_truncated_to_32_bits:
  assumes success: "processRoyaltyCalculation chk requestId cleartexts prf s = Inr s'"
    and i: "i = contributionId_at s requestId"
    and k: "k = contributorHash (contribution_at s i)"
    and p: "payment = paymentAmount (royalty_at s' i)"
  shows "unat payment = unat (totalRewardPool s) * unat (sharePercentage (royalty_at s' i)) div 10000
       \<and> encryptedPaymentAmount (distribution_at s' k) = FHE_asEuint32 (ucast payment)
       \<and> unat (FHE_reveal (encryptedPaymentAmount (distribution_at s' k))) = unat payment mod 2 ^ 32
       \<and> (ucast (FHE_reveal (encryptedPaymentAmount (distribution_at s' k))) = payment
            \<longleftrightarrow> unat payment < 2 ^ 32)
       \<and> claimRoyalty k reqId s' =
           Inr (s'\<lparr>decryptionRequests := decryptionRequests s' @
                      [(reqId, [FHE_asEuint32 (ucast payment)], processRoyaltyPayment_selector)],
                    requestToContributorHash := (requestToContributorHash s')(reqId \<mapsto> k)\<rparr>)
       \<and> abi_decode_uint32
            (abi_encode_uint32 (FHE_reveal (encryptedPaymentAmount (distribution_at s' k))))
           = Inr (ucast payment)"
proof -
  from success obtain share scaled where
    mul: "checked_mul (totalRewardPool s) (ucast share) = Inr scaled"
    and roy: "royalty_at s' i =
      \<lparr>sharePercentage = share, paymentAmount = scaled div 10000, isRevealed = True\<rparr>"
    and dist: "distribution_at s' k =
      \<lparr>encryptedShare = Euint32 share,
       encryptedPaymentAmount = Euint32 (ucast (scaled div 10000)),
       isClaimed = Ebool False\<rparr>"
    by (rule processRoyaltyCalculation_Inr) (simp add: royalty_at_def distribution_at_def i k)
  have pay: "payment = scaled div 10000" by (simp add: p roy)
  have "unat scaled = unat (totalRewardPool s) * unat share"
    using checked_mul_Inr [OF mul] by (simp add: unat_ucast_share)
  then have formula: "unat payment = unat (totalRewardPool s) * unat share div 10000"
    by (simp add: pay unat_div)
  have enc: "encryptedPaymentAmount (distribution_at s' k) = Euint32 (ucast payment)"
    by (simp add: dist pay)
  have unclaimed: "\<not> FHE_decrypt (isClaimed (distribution_at s' k))"
    by (simp add: dist)
  show ?thesis
    unfolding claimRoyalty_unfold enc
    using formula unclaimed
    by (simp add: roy FHE_asEuint32_def unat_ucast_payment ucast_payment_agree
        abi_decode_uint32_encode)
qed

text \<open>A pool of \<open>10000 * 2 ^ 32\<close> and a share of 1: the audit record holds \<open>2 ^ 32\<close>, the
  distribution the encryption of 0, and the claim asks for that ciphertext.\<close>

theorem payment_truncated_to_32_bits_witness:
  "\<exists>s'. processRoyaltyCalculation accept_all 7 (abi_encode_uint32x3 3 0 0) []
            example_large_pool = Inr s'
      \<and> contributionId_at example_large_pool 7 = 1
      \<and> contributorHash (contribution_at example_large_pool 1) = 5
      \<and> paymentAmount (royalty_at s' 1) = 4294967296
      \<and> encryptedPaymentAmount (distribution_at s' 5) = Euint32 0
      \<and> (\<exists>s''. claimRoyalty 5 9 s' = Inr s''
            \<and> decryptionRequests s'' =
                decryptionRequests s' @ [(9, [Euint32 0], processRoyaltyPayment_selector)])"
proof -
  have i: "contributionId_at example_large_pool 7 = 1"
    and k: "contributorHash (contribution_at example_large_pool 1) = 5"
    by (simp_all add: large_pool_state eval_defs)
  have "processRoyaltyCalculation accept_all 7 (abi_encode_uint32x3 3 0 0) []
          example_large_pool \<noteq> Inl e" for e
    unfolding processRoyaltyCalculation_unfold large_pool_state
    by (simp add: eval_defs abi_decode_uint32x3_encode calculateSharePercentage_def)
  then obtain s' where s':
    "processRoyaltyCalculation accept_all 7 (abi_encode_uint32x3 3 0 0) []
       example_large_pool = Inr s'"
    by (cases "processRoyaltyCalculation accept_all 7 (abi_encode_uint32x3 3 0 0) []
                 example_large_pool") auto
  have roy: "royalty_at s' 1 = \<lparr>sharePercentage = 1, paymentAmount = 4294967296, isRevealed = True\<rparr>"
    using s' unfolding processRoyaltyCalculation_unfold large_pool_state
    by (auto simp add: eval_defs abi_decode_uint32x3_encode calculateSharePercentage_def)
  show ?thesis
    using payment_truncated_to_32_bits [OF s' i [symmetric] k [symmetric] refl, of 9] s' i k
    by (simp add: roy FHE_asEuint32_def)
qed

subsection \<open>C10: the weighted sum is computed in checked 32-bit arithmetic\<close>

text \<open>
  Claim C10. \<open>calculateSharePercentage\<close> works in checked \<^verbatim>\<open>uint32\<close> arithmetic.
  For every metric triple in which one of the three products or their sum exceeds
  \<open>2 ^ 32 - 1\<close> it reverts with the overflow panic, and a calculation callback that decodes
  such a triple reverts and leaves the state as it was, so that neither a distribution nor
  an audit entry is written; the revert is the overflow panic once the guards before the
  computation have passed. The function returns a share only when every intermediate value
  fits 32 bits, the share is then the floor of the weighted sum over 100, and a share is
  returned whenever the weighted sum fits.
\<close>

theorem checked_share_arithmetic:
  "(2 ^ 32 - 1 < unat c * 40 \<or> 2 ^ 32 - 1 < unat d * 35 \<or> 2 ^ 32 - 1 < unat m * 25
      \<or> 2 ^ 32 - 1 < weighted_sum c d m
    \<longrightarrow> calculateSharePercentage c d m = Inl ArithmeticOverflow
      \<and> (abi_decode_uint32x3 cleartexts = Inr (c, d, m)
         \<longrightarrow> (\<exists>e. transact chk (ProcessRoyaltyCalculation requestId cleartexts prf) s
                    = (Reverted e, s))
           \<and> (contributionId_at s requestId \<noteq> 0
              \<and> \<not> FHE_decrypt (isClaimed (distribution_at s
                     (contributorHash (contribution_at s (contributionId_at s requestId)))))
              \<and> chk requestId cleartexts prf
              \<longrightarrow> transact chk (ProcessRoyaltyCalculation requestId cleartexts prf) s
                    = (Reverted ArithmeticOverflow, s))))
   \<and> (\<forall>share. calculateSharePercentage c d m = Inr share
        \<longrightarrow> unat c * 40 \<le> 2 ^ 32 - 1 \<and> unat d * 35 \<le> 2 ^ 32 - 1 \<and> unat m * 25 \<le> 2 ^ 32 - 1
          \<and> weighted_sum c d m \<le> 2 ^ 32 - 1
          \<and> unat share = weighted_sum c d m div 100)
   \<and> (weighted_sum c d m \<le> 2 ^ 32 - 1 \<longrightarrow> (\<exists>share. calculateSharePercentage c d m = Inr share))"
proof (intro conjI impI allI)
  assume over: "2 ^ 32 - 1 < unat c * 40 \<or> 2 ^ 32 - 1 < unat d * 35 \<or> 2 ^ 32 - 1 < unat m * 25
      \<or> 2 ^ 32 - 1 < weighted_sum c d m"
  then have "\<not> weighted_sum c d m < 2 ^ 32"
    by (auto simp: weighted_sum_def)
  then show ov: "calculateSharePercentage c d m = Inl ArithmeticOverflow"
    by (rule calculateSharePercentage_overflow)
  assume dec: "abi_decode_uint32x3 cleartexts = Inr (c, d, m)"
  have res: "processRoyaltyCalculation chk requestId cleartexts prf s =
     (if contributionId_at s requestId = 0 then Inl InvalidRequest
      else if FHE_decrypt (isClaimed (distribution_at s
                (contributorHash (contribution_at s (contributionId_at s requestId)))))
      then Inl AlreadyProcessed
      else if \<not> chk requestId cleartexts prf then Inl InvalidSignatures
      else Inl ArithmeticOverflow)"
    unfolding processRoyaltyCalculation_unfold by (simp add: dec ov)
  show "\<exists>e. transact chk (ProcessRoyaltyCalculation requestId cleartexts prf) s = (Reverted e, s)"
    by (simp add: res no_returns_def)
  assume "contributionId_at s requestId \<noteq> 0
              \<and> \<not> FHE_decrypt (isClaimed (distribution_at s
                     (contributorHash (contribution_at s (contributionId_at s requestId)))))
              \<and> chk requestId cleartexts prf"
  then show "transact chk (ProcessRoyaltyCalculation requestId cleartexts prf) s
                    = (Reverted ArithmeticOverflow, s)"
    by (simp add: res no_returns_def)
next
  fix share
  assume sh: "calculateSharePercentage c d m = Inr share"
  have fits: "weighted_sum c d m < 2 ^ 32" by (rule calculateSharePercentage_Inr(1) [OF sh])
  then show "unat c * 40 \<le> 2 ^ 32 - 1" "unat d * 35 \<le> 2 ^ 32 - 1" "unat m * 25 \<le> 2 ^ 32 - 1"
    "weighted_sum c d m \<le> 2 ^ 32 - 1"
    by (simp_all add: weighted_sum_def)
  show "unat share = weighted_sum c d m div 100" by (rule calculateSharePercentage_Inr(2) [OF sh])
next
  assume "weighted_sum c d m \<le> 2 ^ 32 - 1"
  then have "weighted_sum c d m < 2 ^ 32" by simp
  then show "\<exists>share. calculateSharePercentage c d m = Inr share"
    using calculateSharePercentage_fits(1) by blast
qed

text \<open>The smallest \<open>computeHours\<close> whose product with 40 leaves 32 bits makes the callback
  for request 7 revert with the overflow panic, while the value just below still gives a
  share.\<close>

theorem checked_share_arithmetic_witness:
  "2 ^ 32 - 1 < unat (107374183 :: uint32) * 40
   \<and> abi_decode_uint32x3 (abi_encode_uint32x3 107374183 0 0) = Inr (107374183, 0, 0)
   \<and> calculateSharePercentage 107374183 0 0 = Inl ArithmeticOverflow
   \<and> transact accept_all (ProcessRoyaltyCalculation 7 (abi_encode_uint32x3 107374183 0 0) [])
        example_pending = (Reverted ArithmeticOverflow, example_pending)
   \<and> calculateSharePercentage 107374182 0 0 = Inr 42949672"
proof -
  have over: "2 ^ 32 - 1 < unat (107374183 :: uint32) * 40" by simp
  have guards: "contributionId_at example_pending 7 \<noteq> 0
      \<and> \<not> FHE_decrypt (isClaimed (distribution_at example_pending
             (contributorHash (contribution_at example_pending
                (contributionId_at example_pending 7)))))
      \<and> accept_all 7 (abi_encode_uint32x3 107374183 0 0) []"
    by (simp add: pending_state eval_defs)
  have fits: "weighted_sum 107374182 0 0 \<le> 2 ^ 32 - 1" by (simp add: weighted_sum_def)
  have "\<exists>share. calculateSharePercentage 107374182 0 0 = Inr share"
    using checked_share_arithmetic [of 107374182 0 0] fits by blast
  then obtain share where sh: "calculateSharePercentage 107374182 0 0 = Inr share" ..
  then have "unat share = weighted_sum 107374182 0 0 div 100"
    using checked_share_arithmetic [of 107374182 0 0] by blast
  then have "unat share = 42949672" by (simp add: weighted_sum_def)
  then have "share = 42949672" by (simp add: word_unat_eq_iff)
  with sh have below: "calculateSharePercentage 107374182 0 0 = Inr 42949672" by simp
  show ?thesis
    using checked_share_arithmetic [of 107374183 0 0 "abi_encode_uint32x3 107374183 0 0"
        accept_all 7 "[]" example_pending] over guards below
    by (simp add: abi_decode_uint32x3_encode)
qed

end
